theory Spec2Isabelle
  imports Main
begin

section \<open>Text and character classes\<close>

text \<open>
  A Python \<open>str\<close> is a sequence of code points. The text handed to the analyzer is
  modelled as a \<open>string\<close> whose characters are the code points 0..255 (Latin-1), so
  \<open>length\<close> is Python's \<open>len\<close>. The classes below are those of \<open>str.isspace\<close> and of
  the \<open>re\<close> module for \<open>str\<close> patterns (\<open>\s\<close>, \<open>\d\<close>, \<open>\w\<close>, case folding under
  \<open>re.IGNORECASE\<close>), restricted to that range.
\<close>

definition isspace :: "char \<Rightarrow> bool" where
  "isspace c =
     (let n = (of_char c :: nat)
      in (9 \<le> n \<and> n \<le> 13) \<or> (28 \<le> n \<and> n \<le> 32) \<or> n = 133 \<or> n = 160)"

definition isdecimal :: "char \<Rightarrow> bool" where
  "isdecimal c = (let n = (of_char c :: nat) in 48 \<le> n \<and> n \<le> 57)"

definition isalnum :: "char \<Rightarrow> bool" where
  "isalnum c =
     (let n = (of_char c :: nat)
      in (48 \<le> n \<and> n \<le> 57) \<or> (65 \<le> n \<and> n \<le> 90) \<or> (97 \<le> n \<and> n \<le> 122)
         \<or> n = 170 \<or> n = 178 \<or> n = 179 \<or> n = 181 \<or> n = 185 \<or> n = 186
         \<or> (188 \<le> n \<and> n \<le> 190)
         \<or> (192 \<le> n \<and> n \<le> 214) \<or> (216 \<le> n \<and> n \<le> 246) \<or> 248 \<le> n)"

definition isword :: "char \<Rightarrow> bool" where
  "isword c = (isalnum c \<or> c = CHR ''_'')"

definition lower :: "char \<Rightarrow> char" where
  "lower c =
     (let n = (of_char c :: nat)
      in if (65 \<le> n \<and> n \<le> 90) \<or> (192 \<le> n \<and> n \<le> 222 \<and> n \<noteq> 215)
         then char_of (n + 32) else c)"

text \<open>\<open>str.strip()\<close> removes leading and trailing whitespace.\<close>

definition strip :: "string \<Rightarrow> string" where
  "strip s = rev (dropWhile isspace (rev (dropWhile isspace s)))"

text \<open>
  \<open>str.split()\<close> without arguments: the maximal runs of non-whitespace characters.
  The first argument collects the current run, last character first.
\<close>

fun split_run :: "string \<Rightarrow> string \<Rightarrow> string list" where
  "split_run w [] = (if w = [] then [] else [rev w])"
| "split_run w (c # cs) =
     (if isspace c then (if w = [] then split_run [] cs else rev w # split_run [] cs)
      else split_run (c # w) cs)"

definition split :: "string \<Rightarrow> string list" where
  "split s = split_run [] s"

text \<open>\<open>str(n)\<close> for a non-negative integer, as the f-strings of the summary use it.\<close>

fun str_nat :: "nat \<Rightarrow> string" where
  "str_nat n =
     (if n < 10 then [char_of (48 + n)] else str_nat (n div 10) @ [char_of (48 + n mod 10)])"

section \<open>Regular expressions: the fragment of \<open>re\<close> the catalog uses\<close>

text \<open>
  The rules are matched with \<open>re.compile(pattern, re.IGNORECASE)\<close> and \<open>finditer\<close>.
  The patterns of the catalog use literal characters, \<open>.\<close>, \<open>\d\<close>, \<open>\s\<close>, the word
  boundary \<open>\b\<close>, grouping, alternation, an optional group, and greedy repetition of
  a single character (\<open>x?\<close>, \<open>\s*\<close>, \<open>\d+\<close>, \<open>\d{2}\<close>, \<open>.{0,100}\<close>).

  \<^item> \<open>Chr c\<close> is a literal under IGNORECASE: it matches the characters whose lower
    case is that of \<open>c\<close>. \<open>Dot\<close> is any character but the newline.
  \<^item> \<open>Many k m n\<close> repeats one character of class \<open>k\<close> at least \<open>m\<close> times and at most
    \<open>n\<close> times (\<open>None\<close>: no upper bound), greedily.
\<close>

datatype cset = Chr char | Dot | Digit | Space

datatype regex =
    Eps
  | One cset
  | Many cset nat "nat option"
  | Boundary
  | Seq regex regex
  | Alt regex regex
  | Opt regex

fun member_cset :: "cset \<Rightarrow> char \<Rightarrow> bool" where
  "member_cset (Chr p) c = (lower c = lower p)"
| "member_cset Dot c = (c \<noteq> CHR 0x0A)"
| "member_cset Digit c = isdecimal c"
| "member_cset Space c = isspace c"

text \<open>
  A cursor is a place in the text: the offset, the character before it (if any) and
  the text from there on.
\<close>

type_synonym cursor = "nat \<times> char option \<times> string"

fun at_boundary :: "char option \<Rightarrow> string \<Rightarrow> bool" where
  "at_boundary pv rest =
     ((case pv of None \<Rightarrow> False | Some c \<Rightarrow> isword c)
        \<noteq> (case rest of [] \<Rightarrow> False | c # _ \<Rightarrow> isword c))"

fun dec :: "nat option \<Rightarrow> nat option" where
  "dec None = None"
| "dec (Some n) = Some (n - 1)"

text \<open>
  \<open>spans k mx cur\<close>: the cursors after a run of at most \<open>mx\<close> characters of class
  \<open>k\<close>, the longest run first: the order in which a greedy repetition gives back
  characters when the rest of the pattern fails.
\<close>

fun spans :: "cset \<Rightarrow> nat option \<Rightarrow> cursor \<Rightarrow> cursor list" where
  "spans k mx (n, pv, []) = [(n, pv, [])]"
| "spans k mx (n, pv, c # cs) =
     (if mx \<noteq> Some 0 \<and> member_cset k c
      then spans k (dec mx) (Suc n, Some c, cs) @ [(n, pv, c # cs)]
      else [(n, pv, c # cs)])"

text \<open>
  \<open>ends r cur\<close>: every cursor at which a match of \<open>r\<close> that starts at \<open>cur\<close> can end,
  in the order the backtracking matcher tries them (left alternative first, longer
  repetition first, the optional group taken before it is left out).
\<close>

fun ends :: "regex \<Rightarrow> cursor \<Rightarrow> cursor list" where
  "ends Eps cur = [cur]"
| "ends (One k) (n, pv, []) = []"
| "ends (One k) (n, pv, c # cs) = (if member_cset k c then [(Suc n, Some c, cs)] else [])"
| "ends (Many k mn mx) (n, pv, rest) =
     filter (\<lambda>e. n + mn \<le> fst e) (spans k mx (n, pv, rest))"
| "ends Boundary (n, pv, rest) = (if at_boundary pv rest then [(n, pv, rest)] else [])"
| "ends (Seq a b) cur = concat (map (ends b) (ends a cur))"
| "ends (Alt a b) cur = ends a cur @ ends b cur"
| "ends (Opt a) cur = ends a cur @ [cur]"

text \<open>
  One attempt at one start position. With \<open>adv\<close> set, the attempt follows an empty
  match at this position and an empty match is refused (the rule of Python 3.7 and
  later for \<open>finditer\<close>).
\<close>

definition match_at :: "regex \<Rightarrow> bool \<Rightarrow> cursor \<Rightarrow> cursor option" where
  "match_at r adv cur =
     (case filter (\<lambda>e. \<not> adv \<or> fst e \<noteq> fst cur) (ends r cur) of
        [] \<Rightarrow> None
      | e # _ \<Rightarrow> Some e)"

text \<open>A match object: \<open>start()\<close>, \<open>end()\<close> and \<open>group(0)\<close>.\<close>

record re_match =
  m_start :: nat
  m_end :: nat
  group0 :: string

definition mk_match :: "cursor \<Rightarrow> cursor \<Rightarrow> re_match" where
  "mk_match cur e =
     \<lparr>m_start = fst cur, m_end = fst e, group0 = take (fst e - fst cur) (snd (snd cur))\<rparr>"

text \<open>
  The matches that start at one position, and the offset before which the scan may
  not start another match. Positions inside the previous match (before \<open>lim\<close>) are
  skipped. An empty match is followed by a second attempt at the same position.
\<close>

definition matches_here :: "regex \<Rightarrow> nat \<Rightarrow> cursor \<Rightarrow> re_match list \<times> nat" where
  "matches_here r lim cur =
     (if fst cur < lim then ([], lim)
      else case match_at r False cur of
             None \<Rightarrow> ([], lim)
           | Some e \<Rightarrow>
               if fst e = fst cur
               then (case match_at r True cur of
                       None \<Rightarrow> ([mk_match cur e], fst e)
                     | Some e' \<Rightarrow> ([mk_match cur e, mk_match cur e'], fst e'))
               else ([mk_match cur e], fst e))"

fun scan :: "regex \<Rightarrow> nat \<Rightarrow> cursor \<Rightarrow> re_match list" where
  "scan r lim (n, pv, []) = fst (matches_here r lim (n, pv, []))"
| "scan r lim (n, pv, c # cs) =
     (case matches_here r lim (n, pv, c # cs) of
        (ms, lim') \<Rightarrow> ms @ scan r lim' (Suc n, Some c, cs))"

text \<open>\<open>regex.finditer(text)\<close>: the non-overlapping matches, scanning left to right.\<close>

definition finditer :: "regex \<Rightarrow> string \<Rightarrow> re_match list" where
  "finditer r text = scan r 0 (0, None, text)"

text \<open>Building patterns: a literal string, a sequence, an alternation.\<close>

fun lit :: "string \<Rightarrow> regex" where
  "lit [] = Eps"
| "lit [c] = One (Chr c)"
| "lit (c # cs) = Seq (One (Chr c)) (lit cs)"

fun seqs :: "regex list \<Rightarrow> regex" where
  "seqs [] = Eps"
| "seqs [r] = r"
| "seqs (r # rs) = Seq r (seqs rs)"

fun alts :: "regex list \<Rightarrow> regex" where
  "alts [] = Eps"
| "alts [r] = r"
| "alts (r # rs) = Alt r (alts rs)"

section \<open>The pattern catalog (\<open>bias_patterns.py\<close>)\<close>

text \<open>
  A rule of the catalog. \<open>p_pattern\<close> stands for the pattern string: either the
  regular expression it denotes, or \<open>Malformed\<close> for a string that \<open>re.compile\<close>
  rejects. The five explanatory texts of a rule (\<open>why\<close>, \<open>excludes\<close>, \<open>impact\<close>,
  \<open>research\<close>, \<open>alternative\<close>) are copied unchanged into a finding and take no part in
  matching, scoring or the summary; they are left out of the model.
\<close>

datatype pattern_src = Wellformed regex | Malformed

record pattern_def =
  p_id :: string
  p_category :: string
  p_severity :: string
  p_pattern :: pattern_src

text \<open>\<open>\b(alternative|...|alternative)\b\<close>, the shape of every rule but one.\<close>

definition phrases :: "regex list \<Rightarrow> pattern_src" where
  "phrases rs = Wellformed (seqs [Boundary, alts rs, Boundary])"

text \<open>\<^verbatim>\<open>\b(recent graduate|new graduate|fresh graduate|just graduated|class of 20\d{2})\b\<close>\<close>

definition age_recent_graduate :: pattern_def where
  "age_recent_graduate =
     \<lparr>p_id = ''age_recent_graduate'', p_category = ''Historical Bias'', p_severity = ''high'',
      p_pattern = phrases
        [lit ''recent graduate'', lit ''new graduate'', lit ''fresh graduate'',
         lit ''just graduated'', Seq (lit ''class of 20'') (Many Digit 2 (Some 2))]\<rparr>"

text \<open>\<^verbatim>\<open>\b(digital native|grew up with technology|tech-savvy millennial|young and dynamic|youthful energy|fresh perspective)\b\<close>\<close>

definition age_digital_native :: pattern_def where
  "age_digital_native =
     \<lparr>p_id = ''age_digital_native'', p_category = ''Historical Bias'', p_severity = ''high'',
      p_pattern = phrases
        [lit ''digital native'', lit ''grew up with technology'', lit ''tech-savvy millennial'',
         lit ''young and dynamic'', lit ''youthful energy'', lit ''fresh perspective'']\<rparr>"

text \<open>\<^verbatim>\<open>\b(rockstar|rock star|ninja|wizard|guru|hacker|superhero|champion|warrior)\b\<close>\<close>

definition masculine_coded :: pattern_def where
  "masculine_coded =
     \<lparr>p_id = ''masculine_coded'', p_category = ''Language Bias'', p_severity = ''high'',
      p_pattern = phrases
        [lit ''rockstar'', lit ''rock star'', lit ''ninja'', lit ''wizard'', lit ''guru'',
         lit ''hacker'', lit ''superhero'', lit ''champion'', lit ''warrior'']\<rparr>"

text \<open>\<^verbatim>\<open>\b(dominate|aggressive|competitive|driven|crush|destroy|demolish|battle|fight|attack)\b\<close>\<close>

definition aggressive_language :: pattern_def where
  "aggressive_language =
     \<lparr>p_id = ''aggressive_language'', p_category = ''Language Bias'', p_severity = ''medium'',
      p_pattern = phrases
        [lit ''dominate'', lit ''aggressive'', lit ''competitive'', lit ''driven'', lit ''crush'',
         lit ''destroy'', lit ''demolish'', lit ''battle'', lit ''fight'', lit ''attack'']\<rparr>"

text \<open>\<^verbatim>\<open>\b(ivy league|top university|elite university|top-tier school|tier 1 university|Russell Group|prestigious degree|top \d+ university)\b\<close>\<close>

definition prestige_university :: pattern_def where
  "prestige_university =
     \<lparr>p_id = ''prestige_university'', p_category = ''Proxy Discrimination'', p_severity = ''high'',
      p_pattern = phrases
        [lit ''ivy league'', lit ''top university'', lit ''elite university'',
         lit ''top-tier school'', lit ''tier 1 university'', lit ''Russell Group'',
         lit ''prestigious degree'',
         seqs [lit ''top '', Many Digit 1 None, lit '' university'']]\<rparr>"

text \<open>\<^verbatim>\<open>\b(culture fit|cultural fit|fits our culture|fits in|team fit|like-minded|shared values|we're a family)\b\<close>\<close>

definition culture_fit :: pattern_def where
  "culture_fit =
     \<lparr>p_id = ''culture_fit'', p_category = ''Proxy Discrimination'', p_severity = ''high'',
      p_pattern = phrases
        [lit ''culture fit'', lit ''cultural fit'', lit ''fits our culture'', lit ''fits in'',
         lit ''team fit'', lit ''like-minded'', lit ''shared values'',
         lit (''we'' @ [CHR 0x27] @ ''re a family'')]\<rparr>"

text \<open>\<^verbatim>\<open>\b(native English speaker|mother tongue English|English as first language|native-level English|born speaking English)\b\<close>\<close>

definition native_english :: pattern_def where
  "native_english =
     \<lparr>p_id = ''native_english'', p_category = ''Proxy Discrimination'', p_severity = ''high'',
      p_pattern = phrases
        [lit ''native English speaker'', lit ''mother tongue English'',
         lit ''English as first language'', lit ''native-level English'',
         lit ''born speaking English'']\<rparr>"

text \<open>\<^verbatim>\<open>\b(no gaps in employment|continuous employment|uninterrupted work history|consistent employment|no career breaks)\b\<close>\<close>

definition no_employment_gaps :: pattern_def where
  "no_employment_gaps =
     \<lparr>p_id = ''no_employment_gaps'', p_category = ''Resume Gap Penalties'', p_severity = ''high'',
      p_pattern = phrases
        [lit ''no gaps in employment'', lit ''continuous employment'',
         lit ''uninterrupted work history'', lit ''consistent employment'',
         lit ''no career breaks'']\<rparr>"

text \<open>\<^verbatim>\<open>\b(always available|24\/7|on-call 24 hours|available on weekends|must work evenings|flexible availability required)\b\<close>\<close>

definition availability_24_7 :: pattern_def where
  "availability_24_7 =
     \<lparr>p_id = ''availability_24_7'', p_category = ''Resume Gap Penalties'', p_severity = ''medium'',
      p_pattern = phrases
        [lit ''always available'', lit ''24/7'', lit ''on-call 24 hours'',
         lit ''available on weekends'', lit ''must work evenings'',
         lit ''flexible availability required'']\<rparr>"

text \<open>\<^verbatim>\<open>\b(intern|internship|entry.?level).{0,100}(\d+\+?\s*years?\s*(of\s*)?(experience|exp))\b\<close>\<close>

definition intern_experience_paradox :: pattern_def where
  "intern_experience_paradox =
     \<lparr>p_id = ''intern_experience_paradox'', p_category = ''Experience Inflation'',
      p_severity = ''high'',
      p_pattern = Wellformed (seqs
        [Boundary,
         alts [lit ''intern'', lit ''internship'',
               seqs [lit ''entry'', Many Dot 0 (Some 1), lit ''level'']],
         Many Dot 0 (Some 100),
         seqs [Many Digit 1 None, Many (Chr CHR ''+'') 0 (Some 1), Many Space 0 None,
               lit ''year'', Many (Chr CHR ''s'') 0 (Some 1), Many Space 0 None,
               Opt (Seq (lit ''of'') (Many Space 0 None)),
               alts [lit ''experience'', lit ''exp'']],
         Boundary])\<rparr>"

text \<open>\<^verbatim>\<open>\b(not overqualified|right fit for the role|don't be overqualified|no executive experience)\b\<close>\<close>

definition overqualified :: pattern_def where
  "overqualified =
     \<lparr>p_id = ''overqualified'', p_category = ''Experience Inflation'', p_severity = ''medium'',
      p_pattern = phrases
        [lit ''not overqualified'', lit ''right fit for the role'',
         lit (''don'' @ [CHR 0x27] @ ''t be overqualified''), lit ''no executive experience'']\<rparr>"

definition BIAS_PATTERNS :: "pattern_def list" where
  "BIAS_PATTERNS =
     [age_recent_graduate, age_digital_native, masculine_coded, aggressive_language,
      prestige_university, culture_fit, native_english, no_employment_gaps,
      availability_24_7, intern_experience_paradox, overqualified]"

definition get_all_patterns :: "pattern_def list" where
  "get_all_patterns = BIAS_PATTERNS"

text \<open>
  \<open>get_patterns_by_category\<close>: a dict from category to the rules of that category,
  keys in order of first appearance, rules in catalog order.
\<close>

fun group_into :: "(string \<times> pattern_def list) list \<Rightarrow> pattern_def \<Rightarrow> (string \<times> pattern_def list) list" where
  "group_into [] p = [(p_category p, [p])]"
| "group_into ((cat, ps) # rest) p =
     (if cat = p_category p then (cat, ps @ [p]) # rest else (cat, ps) # group_into rest p)"

definition get_patterns_by_category :: "(string \<times> pattern_def list) list" where
  "get_patterns_by_category = foldl group_into [] BIAS_PATTERNS"

section \<open>The analyzer (\<open>fairwords_analyzer.py\<close>)\<close>

record analyzer =
  patterns :: "pattern_def list"
  patterns_by_category :: "(string \<times> pattern_def list) list"

definition BiasAnalyzer :: analyzer where
  "BiasAnalyzer =
     \<lparr>patterns = get_all_patterns, patterns_by_category = get_patterns_by_category\<rparr>"

text \<open>The one exception the engine can meet: \<open>re.error\<close>, raised by \<open>re.compile\<close>.\<close>

datatype error = ReError

fun re_compile :: "pattern_src \<Rightarrow> error + regex" where
  "re_compile (Wellformed r) = Inr r"
| "re_compile Malformed = Inl ReError"

text \<open>
  A finding. \<open>f_matches\<close> is \<open>list(set(...))\<close> in the source, a list without
  duplicates in an order Python does not fix; it is modelled as the set.
\<close>

record finding =
  f_id :: string
  f_category :: string
  f_severity :: string
  f_matches :: "string set"
  f_count :: nat
  f_positions :: "nat list"

text \<open>
  \<open>_detect_patterns\<close>: the loop over \<open>self.patterns\<close>, with the list of findings built
  so far. An exception of \<open>re.compile\<close> is not caught and ends the loop.
\<close>

fun detect_loop :: "pattern_def list \<Rightarrow> string \<Rightarrow> finding list \<Rightarrow> error + finding list" where
  "detect_loop [] text findings = Inr findings"
| "detect_loop (pattern_def # rest) text findings =
     (case re_compile (p_pattern pattern_def) of
        Inl e \<Rightarrow> Inl e
      | Inr regex \<Rightarrow>
          (let matches = finditer regex text
           in if matches \<noteq> []
              then detect_loop rest text (findings @
                     [\<lparr>f_id = p_id pattern_def,
                       f_category = p_category pattern_def,
                       f_severity = p_severity pattern_def,
                       f_matches = set (map group0 matches),
                       f_count = length matches,
                       f_positions = map m_start matches\<rparr>])
              else detect_loop rest text findings))"

definition detect_patterns :: "analyzer \<Rightarrow> string \<Rightarrow> error + finding list" where
  "detect_patterns self text = detect_loop (patterns self) text []"

definition severity_weights :: "string \<rightharpoonup> int" where
  "severity_weights = [''high'' \<mapsto> 15, ''medium'' \<mapsto> 8, ''low'' \<mapsto> 3]"

definition deduction :: "finding \<Rightarrow> int" where
  "deduction f =
     (case severity_weights (f_severity f) of None \<Rightarrow> 5 | Some w \<Rightarrow> w) * int (f_count f)"

definition calculate_score :: "finding list \<Rightarrow> int" where
  "calculate_score findings =
     (if findings = [] then 100
      else max 0 (min 100 (fold (\<lambda>f score. score - deduction f) findings 100)))"

definition generate_summary :: "finding list \<Rightarrow> int \<Rightarrow> string" where
  "generate_summary findings score =
     (if findings = []
      then ''No bias patterns detected. This job description uses inclusive language.''
      else
        let total = length findings;
            categories = card (set (map f_category findings));
            high_severity = length (filter (\<lambda>f. f_severity f = ''high'') findings);
            summary = ''Found '' @ str_nat total @ '' bias pattern''
                        @ (if total > 1 then ''s'' else [])
                        @ '' across '' @ str_nat categories @ '' categor''
                        @ (if categories > 1 then ''ies'' else ''y'') @ ''.'';
            summary = (if high_severity > 0
                       then summary @ '' '' @ str_nat high_severity @ '' high-severity issue''
                              @ (if high_severity > 1 then ''s'' else []) @ '' detected.''
                       else summary)
        in if score < 50
           then summary @ '' This job description needs significant revision to attract diverse candidates.''
           else if score < 80
           then summary @ '' Several improvements recommended to increase inclusivity.''
           else summary @ '' Minor adjustments would improve fairness.'')"

text \<open>
  The values of the result dict. \<open>categories_affected\<close> is \<open>list(set(...))\<close>, modelled as
  the set, like \<open>f_matches\<close>. The dict itself is the list of its items in insertion
  order; \<open>map_of\<close> looks a key up.
\<close>

datatype pyval =
    PyNone
  | PyInt int
  | PyStr string
  | PyFindings "finding list"
  | PyStrSet "string set"

definition analyze :: "analyzer \<Rightarrow> string \<Rightarrow> error + (string \<times> pyval) list" where
  "analyze self text =
     (if text = [] \<or> strip text = []
      then Inr [(''error'', PyStr ''Empty text provided''),
                (''score'', PyNone),
                (''findings'', PyFindings []),
                (''categories_affected'', PyStrSet {})]
      else case detect_patterns self text of
             Inl e \<Rightarrow> Inl e
           | Inr findings \<Rightarrow>
               (let score = calculate_score findings;
                    categories_affected = set (map f_category findings);
                    summary = generate_summary findings score
                in Inr [(''score'', PyInt score),
                        (''findings'', PyFindings findings),
                        (''total_issues'', PyInt (int (length findings))),
                        (''categories_affected'', PyStrSet categories_affected),
                        (''summary'', PyStr summary),
                        (''text_length'', PyInt (int (length text))),
                        (''word_count'', PyInt (int (length (split text))))]))"

section \<open>Notions used to state the properties\<close>

text \<open>A lower bound on the length of every match of a regular expression.\<close>

fun min_len :: "regex \<Rightarrow> nat" where
  "min_len Eps = 0"
| "min_len (One k) = 1"
| "min_len (Many k mn mx) = mn"
| "min_len Boundary = 0"
| "min_len (Seq a b) = min_len a + min_len b"
| "min_len (Alt a b) = min (min_len a) (min_len b)"
| "min_len (Opt a) = 0"

text \<open>
  What one rule contributes: its matches in the text (none for a rule that does not
  compile) and the finding the loop appends when there is at least one.
\<close>

definition rule_matches :: "pattern_def \<Rightarrow> string \<Rightarrow> re_match list" where
  "rule_matches p text =
     (case re_compile (p_pattern p) of Inl e \<Rightarrow> [] | Inr regex \<Rightarrow> finditer regex text)"

definition finding_of :: "string \<Rightarrow> pattern_def \<Rightarrow> finding" where
  "finding_of text p =
     \<lparr>f_id = p_id p, f_category = p_category p, f_severity = p_severity p,
      f_matches = set (map group0 (rule_matches p text)),
      f_count = length (rule_matches p text),
      f_positions = map m_start (rule_matches p text)\<rparr>"

text \<open>
  The scoring rule in the words of the specification: start at 100, subtract
  \<open>weight(severity) * count\<close> for every finding, clamp the total to 0..100.
\<close>

definition weight :: "string \<Rightarrow> int" where
  "weight s =
     (if s = ''high'' then 15 else if s = ''medium'' then 8 else if s = ''low'' then 3 else 5)"

definition computeScore :: "finding list \<Rightarrow> int" where
  "computeScore findings =
     max 0 (min 100 (100 - (\<Sum>f\<leftarrow>findings. weight (f_severity f) * int (f_count f))))"

text \<open>
  A rule whose pattern string is not a regular expression (an unbalanced parenthesis,
  say), and an analyzer whose catalog holds it: \<open>patterns\<close> is a plain attribute,
  and the catalog is a data table that may be extended.
\<close>

definition broken_rule :: pattern_def where
  "broken_rule =
     \<lparr>p_id = ''broken'', p_category = ''Language Bias'', p_severity = ''low'',
      p_pattern = Malformed\<rparr>"

section \<open>Whitespace-only text\<close>

lemma blank_iff: "(text = [] \<or> strip text = []) = (\<forall>c\<in>set text. isspace c)"
proof -
  have "strip text = [] \<longleftrightarrow> (\<forall>c\<in>set (dropWhile isspace text). isspace c)"
    by (simp add: strip_def dropWhile_eq_Nil_conv)
  also have "\<dots> \<longleftrightarrow> dropWhile isspace text = []"
  proof
    assume a: "\<forall>c\<in>set (dropWhile isspace text). isspace c"
    show "dropWhile isspace text = []"
    proof (rule ccontr)
      assume n: "dropWhile isspace text \<noteq> []"
      then have "\<not> isspace (hd (dropWhile isspace text))" by (rule hd_dropWhile)
      moreover from n have "hd (dropWhile isspace text) \<in> set (dropWhile isspace text)" by simp
      ultimately show False using a by blast
    qed
  next
    assume "dropWhile isspace text = []"
    then have "set (dropWhile isspace text) = {}" by (simp only: set_empty)
    then show "\<forall>c\<in>set (dropWhile isspace text). isspace c" by (metis empty_iff)
  qed
  also have "\<dots> \<longleftrightarrow> (\<forall>c\<in>set text. isspace c)"
    by (simp add: dropWhile_eq_Nil_conv)
  finally show ?thesis by auto
qed

section \<open>Matches are found left to right\<close>

lemma spans_ge: "e \<in> set (spans k mx cur) \<Longrightarrow> fst cur \<le> fst e"
  by (induction k mx cur rule: spans.induct) (auto split: if_splits)

lemma ends_min_len: "e \<in> set (ends r cur) \<Longrightarrow> fst cur + min_len r \<le> fst e"
proof (induction r arbitrary: cur e)
  case (One k)
  then show ?case by (cases "(One k, cur)" rule: ends.cases) (auto split: if_splits)
next
  case (Many k mn mx)
  then show ?case by (cases cur) auto
next
  case Boundary
  then show ?case by (cases cur) (auto split: if_splits)
next
  case (Seq a b)
  then obtain m where m: "m \<in> set (ends a cur)" "e \<in> set (ends b m)" by auto
  from Seq.IH(1)[OF m(1)] Seq.IH(2)[OF m(2)] show ?case by simp
next
  case (Alt a b)
  then show ?case by (auto dest: Alt.IH)
next
  case (Opt a)
  then show ?case by (auto dest: Opt.IH)
qed auto

lemma match_at_None: "match_at r False cur = None \<longleftrightarrow> ends r cur = []"
  by (simp add: match_at_def split: list.splits)

lemma match_at_pos:
  assumes "0 < min_len r" "match_at r adv cur = Some e"
  shows "fst cur < fst e"
proof -
  from assms(2) have "e \<in> set (ends r cur)"
    by (auto simp: match_at_def split: list.splits dest: filter_eq_ConsD)
  from ends_min_len[OF this] assms(1) show ?thesis by simp
qed

lemma matches_here_start:
  "matches_here r lim cur = (ms, lim') \<Longrightarrow> m \<in> set ms \<Longrightarrow> m_start m = fst cur"
  by (auto simp: matches_here_def mk_match_def split: if_splits option.splits)

lemma matches_here_single:
  "0 < min_len r \<Longrightarrow> matches_here r lim cur = (ms, lim') \<Longrightarrow> length ms \<le> 1"
  by (auto simp: matches_here_def split: if_splits option.splits dest: match_at_pos)

lemma scan_start_ge: "m \<in> set (scan r lim cur) \<Longrightarrow> fst cur \<le> m_start m"
proof (induction r lim cur arbitrary: m rule: scan.induct)
  case (1 r lim n pv)
  then show ?case
    by (cases "matches_here r lim (n, pv, [])") (auto dest: matches_here_start)
next
  case (2 r lim n pv c cs)
  obtain ms lim' where mh: "matches_here r lim (n, pv, c # cs) = (ms, lim')" by force
  with 2 show ?case by (fastforce dest: matches_here_start)
qed

lemma scan_sorted: "sorted (map m_start (scan r lim cur))"
proof (induction r lim cur rule: scan.induct)
  case (1 r lim n pv)
  obtain ms lim' where mh: "matches_here r lim (n, pv, []) = (ms, lim')" by force
  then have "\<forall>m\<in>set ms. m_start m = n" by (auto dest: matches_here_start)
  then have "sorted (map m_start ms)" by (induction ms) auto
  with mh show ?case by simp
next
  case (2 r lim n pv c cs)
  obtain ms lim' where mh: "matches_here r lim (n, pv, c # cs) = (ms, lim')" by force
  then have a: "\<forall>m\<in>set ms. m_start m = n" by (auto dest: matches_here_start)
  then have "sorted (map m_start ms)" by (induction ms) auto
  moreover have "sorted (map m_start (scan r lim' (Suc n, Some c, cs)))"
    using 2 mh by simp
  moreover have "\<forall>m\<in>set (scan r lim' (Suc n, Some c, cs)). Suc n \<le> m_start m"
    by (auto dest: scan_start_ge)
  ultimately show ?case using mh a by (auto simp: sorted_append)
qed

lemma sorted_wrt_le1:
  "length ms \<le> 1 \<Longrightarrow> sorted_wrt (<) (map m_start ms)"
  by (cases ms) auto

lemma scan_strict:
  assumes r: "0 < min_len r"
  shows "sorted_wrt (<) (map m_start (scan r lim cur))"
  using r
proof (induction r lim cur rule: scan.induct)
  case (1 r lim n pv)
  obtain ms lim' where mh: "matches_here r lim (n, pv, []) = (ms, lim')" by force
  from matches_here_single[OF 1 mh] have "sorted_wrt (<) (map m_start ms)"
    by (rule sorted_wrt_le1)
  with mh show ?case by simp
next
  case (2 r lim n pv c cs)
  obtain ms lim' where mh: "matches_here r lim (n, pv, c # cs) = (ms, lim')" by force
  then have a: "\<forall>m\<in>set ms. m_start m = n" by (auto dest: matches_here_start)
  from matches_here_single[OF 2(2) mh] have "sorted_wrt (<) (map m_start ms)"
    by (rule sorted_wrt_le1)
  moreover have "sorted_wrt (<) (map m_start (scan r lim' (Suc n, Some c, cs)))"
    using 2 mh by simp
  moreover have "\<forall>m\<in>set (scan r lim' (Suc n, Some c, cs)). Suc n \<le> m_start m"
    by (auto dest: scan_start_ge)
  ultimately show ?case using mh a by (fastforce simp: sorted_wrt_append)
qed

section \<open>The detection loop and the shipped catalog\<close>

lemma detect_loop_wellformed:
  "\<forall>p\<in>set ps. p_pattern p \<noteq> Malformed \<Longrightarrow>
   detect_loop ps text acc =
     Inr (acc @ map (finding_of text) (filter (\<lambda>p. rule_matches p text \<noteq> []) ps))"
proof (induction ps arbitrary: acc)
  case Nil
  then show ?case by simp
next
  case (Cons p ps)
  then obtain r where r: "p_pattern p = Wellformed r" by (cases "p_pattern p") auto
  with Cons show ?case by (simp add: rule_matches_def finding_of_def Let_def)
qed

lemma detect_loop_malformed:
  "\<exists>p\<in>set ps. p_pattern p = Malformed \<Longrightarrow> detect_loop ps text acc = Inl ReError"
proof (induction ps arbitrary: acc)
  case Nil
  then show ?case by simp
next
  case (Cons p ps)
  show ?case
  proof (cases "p_pattern p")
    case (Wellformed r)
    with Cons.prems have "\<exists>q\<in>set ps. p_pattern q = Malformed" by auto
    with Cons.IH Wellformed show ?thesis by (simp add: Let_def)
  next
    case Malformed
    then show ?thesis by simp
  qed
qed

lemma catalog_wellformed: "\<forall>p\<in>set BIAS_PATTERNS. p_pattern p \<noteq> Malformed"
  by (simp add: BIAS_PATTERNS_def age_recent_graduate_def age_digital_native_def
      masculine_coded_def aggressive_language_def prestige_university_def culture_fit_def
      native_english_def no_employment_gaps_def availability_24_7_def
      intern_experience_paradox_def overqualified_def phrases_def)

lemma detect_patterns_shipped:
  "detect_patterns BiasAnalyzer text =
     Inr (map (finding_of text) (filter (\<lambda>p. rule_matches p text \<noteq> []) BIAS_PATTERNS))"
  using detect_loop_wellformed[OF catalog_wellformed, of "text" "[]"]
  by (simp add: detect_patterns_def BiasAnalyzer_def get_all_patterns_def)

lemma fold_deduction:
  "fold (\<lambda>f score. score - d f) fs (a::int) = a - (\<Sum>f\<leftarrow>fs. d f)"
  by (induction fs arbitrary: a) auto

lemma deduction_weight: "deduction f = weight (f_severity f) * int (f_count f)"
  by (simp add: deduction_def weight_def severity_weights_def)

lemma calculate_score_range: "0 \<le> calculate_score fs \<and> calculate_score fs \<le> 100"
  by (simp add: calculate_score_def)

lemma analyze_shipped:
  assumes "\<exists>c\<in>set text. \<not> isspace c"
  shows "analyze BiasAnalyzer text =
     (let findings = map (finding_of text) (filter (\<lambda>p. rule_matches p text \<noteq> []) BIAS_PATTERNS)
      in Inr [(''score'', PyInt (calculate_score findings)),
              (''findings'', PyFindings findings),
              (''total_issues'', PyInt (int (length findings))),
              (''categories_affected'', PyStrSet (set (map f_category findings))),
              (''summary'', PyStr (generate_summary findings (calculate_score findings))),
              (''text_length'', PyInt (int (length text))),
              (''word_count'', PyInt (int (length (split text))))])"
proof -
  from assms have "\<not> (text = [] \<or> strip text = [])" by (simp add: blank_iff)
  then show ?thesis
    by (simp add: analyze_def detect_patterns_shipped Let_def image_image)
qed

lemmas catalog_defs =
  BIAS_PATTERNS_def age_recent_graduate_def age_digital_native_def
  masculine_coded_def aggressive_language_def prestige_university_def culture_fit_def
  native_english_def no_employment_gaps_def availability_24_7_def
  intern_experience_paradox_def overqualified_def phrases_def

lemma analyze_blank_eq:
  assumes "\<forall>c\<in>set text. isspace c"
  shows "analyze self text =
           Inr [(''error'', PyStr ''Empty text provided''), (''score'', PyNone),
                (''findings'', PyFindings []), (''categories_affected'', PyStrSet {})]"
  using assms blank_iff[of "text"] by (simp add: analyze_def)

lemma catalog_ids_distinct: "distinct (map p_id BIAS_PATTERNS)"
  by (simp add: catalog_defs)

lemma catalog_min_len:
  "\<forall>p\<in>set BIAS_PATTERNS. \<exists>r. p_pattern p = Wellformed r \<and> 0 < min_len r"
  by (simp add: catalog_defs)

lemma findings_of_result:
  assumes "analyze BiasAnalyzer text = Inr result"
    and "map_of result ''findings'' = Some (PyFindings findings)"
  shows "findings = (if \<forall>c\<in>set text. isspace c then []
           else map (finding_of text) (filter (\<lambda>p. rule_matches p text \<noteq> []) BIAS_PATTERNS))"
proof (cases "\<forall>c\<in>set text. isspace c")
  case True
  from analyze_blank_eq[OF True, of BiasAnalyzer] assms True show ?thesis by auto
next
  case False
  then have "\<exists>c\<in>set text. \<not> isspace c" by simp
  from analyze_shipped[OF this] assms False show ?thesis by (auto simp: Let_def)
qed

text \<open>
  Filtering a list keeps the order of its elements; with distinct keys, the order of
  two kept elements is the order of their keys in the whole list.
\<close>

lemma filter_keeps_order:
  assumes d: "distinct (map g ys)"
    and i: "i < length (filter P ys)" and j: "j < length (filter P ys)"
    and ab: "a < b" "b < length ys"
    and gi: "g (filter P ys ! i) = g (ys ! a)" and gj: "g (filter P ys ! j) = g (ys ! b)"
  shows "i < j"
proof (rule ccontr)
  assume n: "\<not> i < j"
  define R where "R x y \<longleftrightarrow> (\<exists>a b. a < b \<and> b < length ys \<and> ys ! a = x \<and> ys ! b = y)" for x y
  have "sorted_wrt R ys" unfolding sorted_wrt_iff_nth_less R_def by blast
  then have s: "sorted_wrt R (filter P ys)" by (rule sorted_wrt_filter)
  have inj: "\<And>u v. u < length ys \<Longrightarrow> v < length ys \<Longrightarrow> g (ys ! u) = g (ys ! v) \<Longrightarrow> u = v"
    using d by (auto simp: distinct_conv_nth)
  show False
  proof (cases "i = j")
    case True
    with gi gj have "g (ys ! a) = g (ys ! b)" by simp
    with inj[of a b] ab show False by simp
  next
    case False
    with n have "j < i" by simp
    with s i have "R (filter P ys ! j) (filter P ys ! i)" by (simp add: sorted_wrt_iff_nth_less)
    then obtain a' b' where ab': "a' < b'" "b' < length ys" "ys ! a' = filter P ys ! j"
      "ys ! b' = filter P ys ! i" by (auto simp: R_def)
    have a'l: "a' < length ys" using ab' by simp
    have al: "a < length ys" using ab by simp
    have "g (ys ! a') = g (ys ! b)" using ab'(3) gj by simp
    then have "a' = b" by (rule inj[OF a'l ab(2)])
    moreover have "g (ys ! b') = g (ys ! a)" using ab'(4) gi by simp
    then have "b' = a" by (rule inj[OF ab'(2) al])
    ultimately show False using ab ab' by simp
  qed
qed

section \<open>The analyzer on concrete texts\<close>

text \<open>The scenario of the specification: three rules match, one occurrence each.\<close>

lemma analyze_scenario:
  "analyze BiasAnalyzer
     ''We need a rockstar developer, recent graduate preferred, must be a culture fit.'' =
     Inr [(''score'', PyInt 55),
          (''findings'', PyFindings
             [\<lparr>f_id = ''age_recent_graduate'', f_category = ''Historical Bias'',
               f_severity = ''high'', f_matches = {''recent graduate''}, f_count = 1,
               f_positions = [30]\<rparr>,
              \<lparr>f_id = ''masculine_coded'', f_category = ''Language Bias'',
               f_severity = ''high'', f_matches = {''rockstar''}, f_count = 1,
               f_positions = [10]\<rparr>,
              \<lparr>f_id = ''culture_fit'', f_category = ''Proxy Discrimination'',
               f_severity = ''high'', f_matches = {''culture fit''}, f_count = 1,
               f_positions = [67]\<rparr>]),
          (''total_issues'', PyInt 3),
          (''categories_affected'',
           PyStrSet {''Language Bias'', ''Historical Bias'', ''Proxy Discrimination''}),
          (''summary'', PyStr ''Found 3 bias patterns across 3 categories. 3 high-severity issues detected. Several improvements recommended to increase inclusivity.''),
          (''text_length'', PyInt 79),
          (''word_count'', PyInt 13)]"
  by code_simp

text \<open>One rule matches three times, with two distinct surface strings.\<close>

lemma analyze_ninja:
  "analyze BiasAnalyzer ''ninja Ninja ninja'' =
     Inr [(''score'', PyInt 55),
          (''findings'', PyFindings
             [\<lparr>f_id = ''masculine_coded'', f_category = ''Language Bias'', f_severity = ''high'',
               f_matches = {''ninja'', ''Ninja''}, f_count = 3, f_positions = [0, 6, 12]\<rparr>]),
          (''total_issues'', PyInt 1),
          (''categories_affected'', PyStrSet {''Language Bias''}),
          (''summary'', PyStr ''Found 1 bias pattern across 1 category. 1 high-severity issue detected. Several improvements recommended to increase inclusivity.''),
          (''text_length'', PyInt 17),
          (''word_count'', PyInt 3)]"
  by code_simp

text \<open>No rule matches a single space, nor the inclusive sentence of the specification.\<close>

lemma no_rule_matches_space:
  "filter (\<lambda>p. rule_matches p '' '' \<noteq> []) BIAS_PATTERNS = []"
  by code_simp

lemma no_rule_matches_inclusive:
  "filter (\<lambda>p. rule_matches p ''Experienced engineer with strong communication skills.'' \<noteq> [])
     BIAS_PATTERNS = []"
  by code_simp

section \<open>The claims\<close>

text \<open>
  C1. For every list of findings, \<open>_calculate_score\<close> is the score of the
  specification: it starts at 100, subtracts \<open>weight(severity) * count\<close> for every
  finding, with the weights 15, 8 and 3 for high, medium and low and 5 for any other
  severity, and clamps the total (not the single deductions) to the interval from 0
  to 100.
\<close>

theorem calculate_score_is_computeScore: "calculate_score findings = computeScore findings"
  by (simp add: calculate_score_def computeScore_def fold_deduction deduction_weight)

text \<open>
  C2. On the text "We need a rockstar developer, recent graduate preferred, must be a
  culture fit." the analyzer returns exactly three findings: \<open>age_recent_graduate\<close>
  (matched string "recent graduate"), \<open>masculine_coded\<close> ("rockstar") and
  \<open>culture_fit\<close> ("culture fit"), in this, the catalog's, order; the affected
  categories are exactly Language Bias, Historical Bias and Proxy Discrimination; the
  score is 55.
\<close>

theorem scenario_three_findings:
  "\<exists>result.
     analyze BiasAnalyzer
       ''We need a rockstar developer, recent graduate preferred, must be a culture fit.''
       = Inr result
     \<and> map_of result ''findings'' = Some (PyFindings
          [\<lparr>f_id = ''age_recent_graduate'', f_category = ''Historical Bias'',
            f_severity = ''high'', f_matches = {''recent graduate''}, f_count = 1,
            f_positions = [30]\<rparr>,
           \<lparr>f_id = ''masculine_coded'', f_category = ''Language Bias'',
            f_severity = ''high'', f_matches = {''rockstar''}, f_count = 1,
            f_positions = [10]\<rparr>,
           \<lparr>f_id = ''culture_fit'', f_category = ''Proxy Discrimination'',
            f_severity = ''high'', f_matches = {''culture fit''}, f_count = 1,
            f_positions = [67]\<rparr>])
     \<and> map_of result ''categories_affected'' =
          Some (PyStrSet {''Language Bias'', ''Historical Bias'', ''Proxy Discrimination''})
     \<and> map_of result ''score'' = Some (PyInt (100 - 15 - 15 - 15))"
  by (simp add: analyze_scenario)

text \<open>
  C3. For every text that is empty or consists of whitespace only, and for every
  analyzer, \<open>analyze\<close> returns (it does not raise) the error-shaped dict: the score is
  \<open>None\<close>, the list of findings is empty and so is the set of affected categories.
\<close>

theorem analyze_blank:
  assumes "\<forall>c\<in>set text. isspace c"
  shows "analyze self text =
           Inr [(''error'', PyStr ''Empty text provided''), (''score'', PyNone),
                (''findings'', PyFindings []), (''categories_affected'', PyStrSet {})]"
  using assms by (rule analyze_blank_eq)

theorem analyze_blank_witness:
  "list_all isspace [CHR '' '', CHR 0x09, CHR 0x0A]
   \<and> analyze BiasAnalyzer [CHR '' '', CHR 0x09, CHR 0x0A] =
         Inr [(''error'', PyStr ''Empty text provided''), (''score'', PyNone),
              (''findings'', PyFindings []), (''categories_affected'', PyStrSet {})]
   \<and> analyze BiasAnalyzer [] =
         Inr [(''error'', PyStr ''Empty text provided''), (''score'', PyNone),
              (''findings'', PyFindings []), (''categories_affected'', PyStrSet {})]"
proof -
  have h: "\<forall>c\<in>set [CHR '' '', CHR 0x09, CHR 0x0A]. isspace c" by (simp add: isspace_def)
  have e: "\<forall>c\<in>set []. isspace c" by simp
  show ?thesis
    using h analyze_blank[OF h, of BiasAnalyzer] analyze_blank[OF e, of BiasAnalyzer]
    by (simp add: isspace_def)
qed

text \<open>
  C4. For every non-empty text and every finding \<open>f\<close> that \<open>analyze\<close> returns, there
  is a rule of the catalog, with the finding's id, such that: \<open>f_matches\<close> is the set
  of the matched surface strings, \<open>f_count\<close> is the number of all occurrences, repeats
  included, \<open>f_positions\<close> lists the start offset of every occurrence; the count is at
  least the number of distinct strings, and the positions are strictly ascending.
\<close>

theorem finding_invariant:
  assumes "text \<noteq> []"
    and "analyze BiasAnalyzer text = Inr result"
    and "map_of result ''findings'' = Some (PyFindings findings)"
    and "f \<in> set findings"
  shows "\<exists>p regex. p \<in> set BIAS_PATTERNS \<and> re_compile (p_pattern p) = Inr regex
           \<and> f_id f = p_id p
           \<and> f_matches f = set (map group0 (finditer regex text))
           \<and> f_count f = length (finditer regex text)
           \<and> f_positions f = map m_start (finditer regex text)
           \<and> card (f_matches f) \<le> f_count f
           \<and> sorted_wrt (<) (f_positions f)"
proof -
  from findings_of_result[OF assms(2,3)] assms(4)
  obtain p where p: "p \<in> set BIAS_PATTERNS" "f = finding_of text p"
    by (auto split: if_splits)
  from catalog_min_len p(1) obtain r where r: "p_pattern p = Wellformed r" "0 < min_len r"
    by blast
  have m: "rule_matches p text = finditer r text" using r(1) by (simp add: rule_matches_def)
  have "card (set (map group0 (finditer r text))) \<le> length (finditer r text)"
    using card_length[of "map group0 (finditer r text)"] by simp
  moreover have "sorted_wrt (<) (map m_start (finditer r text))"
    unfolding finditer_def by (rule scan_strict[OF r(2)])
  ultimately show ?thesis using p r(1) m
    by (intro exI[of _ p] exI[of _ r]) (simp add: finding_of_def)
qed

theorem finding_invariant_witness:
  "''ninja Ninja ninja'' \<noteq> []
   \<and> (\<exists>p regex. p \<in> set BIAS_PATTERNS \<and> re_compile (p_pattern p) = Inr regex
         \<and> p_id p = ''masculine_coded''
         \<and> set (map group0 (finditer regex ''ninja Ninja ninja'')) = {''ninja'', ''Ninja''}
         \<and> length (finditer regex ''ninja Ninja ninja'') = 3
         \<and> map m_start (finditer regex ''ninja Ninja ninja'') = [0, 6, 12]
         \<and> card {''ninja'', ''Ninja''} \<le> (3::nat)
         \<and> sorted_wrt (<) [0, 6, 12::nat])"
proof -
  let ?f = "\<lparr>f_id = ''masculine_coded'', f_category = ''Language Bias'',
    f_severity = ''high'', f_matches = {''ninja'', ''Ninja''}, f_count = 3,
    f_positions = [0, 6, 12]\<rparr>"
  have t: "''ninja Ninja ninja'' \<noteq> []" by simp
  have l: "map_of [(''score'', PyInt 55), (''findings'', PyFindings [?f]),
          (''total_issues'', PyInt 1),
          (''categories_affected'', PyStrSet {''Language Bias''}),
          (''summary'', PyStr ''Found 1 bias pattern across 1 category. 1 high-severity issue detected. Several improvements recommended to increase inclusivity.''),
          (''text_length'', PyInt 17),
          (''word_count'', PyInt 3)] ''findings'' = Some (PyFindings [?f])" by simp
  have i: "?f \<in> set [?f]" by simp
  from finding_invariant[OF t analyze_ninja l i]
  obtain p regex where a: "p \<in> set BIAS_PATTERNS" "re_compile (p_pattern p) = Inr regex"
    "f_id ?f = p_id p"
    "f_matches ?f = set (map group0 (finditer regex ''ninja Ninja ninja''))"
    "f_count ?f = length (finditer regex ''ninja Ninja ninja'')"
    "f_positions ?f = map m_start (finditer regex ''ninja Ninja ninja'')"
    "card (f_matches ?f) \<le> f_count ?f"
    "sorted_wrt (<) (f_positions ?f)"
    by blast
  have 1: "p_id p = ''masculine_coded''" using a(3) by simp
  have 2: "set (map group0 (finditer regex ''ninja Ninja ninja'')) = {''ninja'', ''Ninja''}"
    using a(4)[symmetric] by (simp only: finding.simps)
  have 3: "length (finditer regex ''ninja Ninja ninja'') = 3"
    using a(5)[symmetric] by (simp only: finding.simps)
  have 4: "map m_start (finditer regex ''ninja Ninja ninja'') = [0, 6, 12]"
    using a(6)[symmetric] by (simp only: finding.simps)
  have 5: "card {''ninja'', ''Ninja''} \<le> (3::nat)"
    using a(7) by (simp only: finding.simps)
  have 6: "sorted_wrt (<) [0, 6, 12::nat]"
    using a(8) by (simp only: finding.simps)
  show ?thesis
  proof (intro conjI exI[of _ p] exI[of _ regex])
    show "''ninja Ninja ninja'' \<noteq> []" by (rule t)
    show "p \<in> set BIAS_PATTERNS" by (rule a(1))
    show "re_compile (p_pattern p) = Inr regex" by (rule a(2))
    show "p_id p = ''masculine_coded''" by (rule 1)
    show "set (map group0 (finditer regex ''ninja Ninja ninja'')) = {''ninja'', ''Ninja''}"
      by (rule 2)
    show "length (finditer regex ''ninja Ninja ninja'') = 3" by (rule 3)
    show "map m_start (finditer regex ''ninja Ninja ninja'') = [0, 6, 12]" by (rule 4)
    show "card {''ninja'', ''Ninja''} \<le> (3::nat)" by (rule 5)
    show "sorted_wrt (<) [0, 6, 12::nat]" by (rule 6)
  qed
qed

text \<open>
  C5, as amended. The engine does not skip a rule whose matcher fails: when the text
  is neither empty nor whitespace only and some rule of the analyzer's catalog has a
  pattern that does not compile, the failure leaves \<open>analyze\<close> and no result is
  produced, whatever the other rules match.
\<close>

theorem malformed_rule_aborts:
  assumes "\<exists>c\<in>set text. \<not> isspace c"
    and "\<exists>p\<in>set (patterns self). p_pattern p = Malformed"
  shows "analyze self text = Inl ReError"
proof -
  from assms(1) have "\<not> (text = [] \<or> strip text = [])" by (simp add: blank_iff)
  moreover from assms(2) have "detect_patterns self text = Inl ReError"
    unfolding detect_patterns_def by (rule detect_loop_malformed)
  ultimately show ?thesis by (simp add: analyze_def)
qed

theorem malformed_rule_aborts_witness:
  "list_ex (\<lambda>c. \<not> isspace c) ''ninja''
   \<and> list_ex (\<lambda>p. p_pattern p = Malformed) [masculine_coded, broken_rule]
   \<and> analyze \<lparr>patterns = [masculine_coded, broken_rule], patterns_by_category = []\<rparr> ''ninja''
       = Inl ReError"
proof -
  have h: "\<exists>c\<in>set ''ninja''. \<not> isspace c" by (simp add: isspace_def)
  have b: "\<exists>p\<in>set (patterns \<lparr>patterns = [masculine_coded, broken_rule],
                                patterns_by_category = []\<rparr>). p_pattern p = Malformed"
    by (simp add: broken_rule_def)
  show ?thesis
    using malformed_rule_aborts[OF h b] by (simp add: isspace_def broken_rule_def)
qed

text \<open>
  The claim as written fails: with a malformed rule before \<open>masculine_coded\<close> in the
  catalog, the text "ninja", which \<open>masculine_coded\<close> matches, yields no result at
  all instead of the finding of \<open>masculine_coded\<close>.
\<close>

theorem skip_and_continue_counterexample:
  "rule_matches masculine_coded ''ninja'' \<noteq> []
   \<and> analyze \<lparr>patterns = [broken_rule, masculine_coded], patterns_by_category = []\<rparr> ''ninja''
       = Inl ReError"
  by code_simp

text \<open>
  C6. For every text that is neither empty nor whitespace only, \<open>analyze\<close> returns a
  result whose score is an integer between 0 and 100.
\<close>

theorem score_in_range:
  assumes "\<exists>c\<in>set text. \<not> isspace c"
  shows "\<exists>result s. analyze BiasAnalyzer text = Inr result
            \<and> map_of result ''score'' = Some (PyInt s) \<and> 0 \<le> s \<and> s \<le> 100"
  using calculate_score_range by (simp add: analyze_shipped[OF assms] Let_def)

theorem score_in_range_witness:
  "list_ex (\<lambda>c. \<not> isspace c) ''ninja Ninja ninja''
   \<and> (\<exists>result s. analyze BiasAnalyzer ''ninja Ninja ninja'' = Inr result
            \<and> map_of result ''score'' = Some (PyInt s) \<and> 0 \<le> s \<and> s \<le> 100)"
proof -
  have h: "\<exists>c\<in>set ''ninja Ninja ninja''. \<not> isspace c" by (simp add: isspace_def)
  show ?thesis using score_in_range[OF h] by (simp add: isspace_def)
qed

text \<open>
  C7, as amended. For every text that is neither empty nor whitespace only and that
  no rule of the catalog matches, \<open>analyze\<close> returns the score 100, no finding, no
  affected category, and the fixed summary sentence.
\<close>

theorem no_match_result:
  assumes "\<exists>c\<in>set text. \<not> isspace c"
    and "\<forall>p\<in>set BIAS_PATTERNS. rule_matches p text = []"
  shows "\<exists>result. analyze BiasAnalyzer text = Inr result
           \<and> map_of result ''score'' = Some (PyInt 100)
           \<and> map_of result ''findings'' = Some (PyFindings [])
           \<and> map_of result ''categories_affected'' = Some (PyStrSet {})
           \<and> map_of result ''summary'' = Some (PyStr
                ''No bias patterns detected. This job description uses inclusive language.'')"
proof -
  from assms(2) have "filter (\<lambda>p. rule_matches p text \<noteq> []) BIAS_PATTERNS = []"
    by (simp add: filter_empty_conv)
  then show ?thesis
    by (simp add: analyze_shipped[OF assms(1)] calculate_score_def generate_summary_def)
qed

theorem no_match_result_witness:
  "list_ex (\<lambda>c. \<not> isspace c) ''Experienced engineer with strong communication skills.''
   \<and> filter (\<lambda>p. rule_matches p ''Experienced engineer with strong communication skills.'' \<noteq> [])
        BIAS_PATTERNS = []
   \<and> (\<exists>result.
         analyze BiasAnalyzer ''Experienced engineer with strong communication skills.''
           = Inr result
         \<and> map_of result ''score'' = Some (PyInt 100)
         \<and> map_of result ''findings'' = Some (PyFindings [])
         \<and> map_of result ''categories_affected'' = Some (PyStrSet {})
         \<and> map_of result ''summary'' = Some (PyStr
              ''No bias patterns detected. This job description uses inclusive language.''))"
proof -
  have h: "\<exists>c\<in>set ''Experienced engineer with strong communication skills.''. \<not> isspace c"
    by (simp add: isspace_def)
  have n: "\<forall>p\<in>set BIAS_PATTERNS.
      rule_matches p ''Experienced engineer with strong communication skills.'' = []"
    using no_rule_matches_inclusive by (simp only: filter_empty_conv not_not)
  have l: "list_ex (\<lambda>c. \<not> isspace c) ''Experienced engineer with strong communication skills.''"
    by (simp add: isspace_def)
  from l no_rule_matches_inclusive no_match_result[OF h n] show ?thesis by blast
qed

text \<open>
  The claim as written, for every non-empty text, fails on a single space: the text
  is not empty, no rule matches it, and the result is the error-shaped dict, whose
  score is \<open>None\<close> and which has no summary.
\<close>

theorem no_match_whitespace_counterexample:
  "'' '' \<noteq> []
   \<and> filter (\<lambda>p. rule_matches p '' '' \<noteq> []) BIAS_PATTERNS = []
   \<and> (\<exists>result. analyze BiasAnalyzer '' '' = Inr result
         \<and> map_of result ''score'' = Some PyNone
         \<and> map_of result ''summary'' = None)"
proof -
  have "\<forall>c\<in>set '' ''. isspace c" by (simp add: isspace_def)
  from analyze_blank_eq[OF this, of BiasAnalyzer] no_rule_matches_space
  show ?thesis by simp
qed

text \<open>
  C8. For every non-empty text, the findings that \<open>analyze\<close> returns are in catalog
  order: when rule \<open>a\<close> precedes rule \<open>b\<close> in the catalog and both have a finding, the
  finding of \<open>a\<close> precedes that of \<open>b\<close>. For a text that is not whitespace only the
  findings are those of the rules with a match, rule by rule in catalog order.
\<close>

theorem findings_in_catalog_order:
  assumes "text \<noteq> []"
    and "analyze BiasAnalyzer text = Inr result"
    and "map_of result ''findings'' = Some (PyFindings findings)"
  shows "(\<forall>i j a b. i < length findings \<and> j < length findings
               \<and> a < b \<and> b < length BIAS_PATTERNS
               \<and> f_id (findings ! i) = p_id (BIAS_PATTERNS ! a)
               \<and> f_id (findings ! j) = p_id (BIAS_PATTERNS ! b)
             \<longrightarrow> i < j)
         \<and> ((\<exists>c\<in>set text. \<not> isspace c) \<longrightarrow>
              findings = map (finding_of text)
                           (filter (\<lambda>p. rule_matches p text \<noteq> []) BIAS_PATTERNS))"
proof (cases "\<forall>c\<in>set text. isspace c")
  case True
  with findings_of_result[OF assms(2,3)] show ?thesis by simp
next
  case False
  define hits where "hits = filter (\<lambda>p. rule_matches p text \<noteq> []) BIAS_PATTERNS"
  from findings_of_result[OF assms(2,3)] False
  have f: "findings = map (finding_of text) hits" by (simp add: hits_def)
  have "i < j" if "i < length findings" "j < length findings" "a < b" "b < length BIAS_PATTERNS"
    "f_id (findings ! i) = p_id (BIAS_PATTERNS ! a)" "f_id (findings ! j) = p_id (BIAS_PATTERNS ! b)"
    for i j a b
    using that f filter_keeps_order[OF catalog_ids_distinct, of i "\<lambda>p. rule_matches p text \<noteq> []" j a b]
    by (simp add: hits_def finding_of_def)
  then have "\<forall>i j a b. i < length findings \<and> j < length findings
               \<and> a < b \<and> b < length BIAS_PATTERNS
               \<and> f_id (findings ! i) = p_id (BIAS_PATTERNS ! a)
               \<and> f_id (findings ! j) = p_id (BIAS_PATTERNS ! b)
             \<longrightarrow> i < j" by blast
  moreover have "findings = map (finding_of text)
                           (filter (\<lambda>p. rule_matches p text \<noteq> []) BIAS_PATTERNS)"
    using f by (simp only: hits_def)
  ultimately show ?thesis by blast
qed

text \<open>
  In the scenario text "rockstar" (offset 10) comes before "recent graduate" (offset
  30), and the finding of \<open>age_recent_graduate\<close>, the first rule of the catalog, comes
  before that of \<open>masculine_coded\<close>, the third.
\<close>

theorem findings_in_catalog_order_witness:
  "\<exists>findings.
     map f_id findings = [''age_recent_graduate'', ''masculine_coded'', ''culture_fit'']
     \<and> map f_positions findings = [[30], [10], [67]]
     \<and> p_id (BIAS_PATTERNS ! 0) = ''age_recent_graduate''
     \<and> p_id (BIAS_PATTERNS ! 2) = ''masculine_coded''
     \<and> findings = map (finding_of
          ''We need a rockstar developer, recent graduate preferred, must be a culture fit.'')
          (filter (\<lambda>p. rule_matches p
             ''We need a rockstar developer, recent graduate preferred, must be a culture fit.''
               \<noteq> []) BIAS_PATTERNS)"
proof -
  let ?T = "''We need a rockstar developer, recent graduate preferred, must be a culture fit.''"
  let ?fs = "[\<lparr>f_id = ''age_recent_graduate'', f_category = ''Historical Bias'',
            f_severity = ''high'', f_matches = {''recent graduate''}, f_count = 1,
            f_positions = [30]\<rparr>,
           \<lparr>f_id = ''masculine_coded'', f_category = ''Language Bias'',
            f_severity = ''high'', f_matches = {''rockstar''}, f_count = 1,
            f_positions = [10]\<rparr>,
           \<lparr>f_id = ''culture_fit'', f_category = ''Proxy Discrimination'',
            f_severity = ''high'', f_matches = {''culture fit''}, f_count = 1,
            f_positions = [67]\<rparr>]"
  have t: "?T \<noteq> []" by simp
  have h: "\<exists>c\<in>set ?T. \<not> isspace c" by (simp add: isspace_def)
  have l: "map_of [(''score'', PyInt 55), (''findings'', PyFindings ?fs),
          (''total_issues'', PyInt 3),
          (''categories_affected'',
           PyStrSet {''Language Bias'', ''Historical Bias'', ''Proxy Discrimination''}),
          (''summary'', PyStr ''Found 3 bias patterns across 3 categories. 3 high-severity issues detected. Several improvements recommended to increase inclusivity.''),
          (''text_length'', PyInt 79),
          (''word_count'', PyInt 13)] ''findings'' = Some (PyFindings ?fs)" by simp
  from findings_in_catalog_order[OF t analyze_scenario l]
  have "(\<exists>c\<in>set ?T. \<not> isspace c) \<longrightarrow>
     ?fs = map (finding_of ?T) (filter (\<lambda>p. rule_matches p ?T \<noteq> []) BIAS_PATTERNS)"
    by (rule conjunct2)
  from this h
  have e: "?fs = map (finding_of ?T) (filter (\<lambda>p. rule_matches p ?T \<noteq> []) BIAS_PATTERNS)"
    by (rule mp)
  show ?thesis
  proof (intro exI[of _ ?fs] conjI)
    show "map f_id ?fs = [''age_recent_graduate'', ''masculine_coded'', ''culture_fit'']"
      by simp
    show "map f_positions ?fs = [[30], [10], [67]]" by simp
    show "p_id (BIAS_PATTERNS ! 0) = ''age_recent_graduate''"
      by (simp add: BIAS_PATTERNS_def age_recent_graduate_def)
    show "p_id (BIAS_PATTERNS ! 2) = ''masculine_coded''"
      by (simp add: BIAS_PATTERNS_def masculine_coded_def)
    show "?fs = map (finding_of ?T) (filter (\<lambda>p. rule_matches p ?T \<noteq> []) BIAS_PATTERNS)"
      by (rule e)
  qed
qed

text \<open>
  C9. In the shipped catalog no two rules have the same id, and the severity of every
  rule is high, medium or low.
\<close>

theorem catalog_invariant:
  "distinct (map p_id BIAS_PATTERNS)
   \<and> set (map p_severity BIAS_PATTERNS) \<subseteq> {''high'', ''medium'', ''low''}"
  by (simp add: catalog_defs)

text \<open>
  C10. The result for an empty or whitespace-only text has the keys \<open>error\<close>, \<open>score\<close>,
  \<open>findings\<close> and \<open>categories_affected\<close>: it holds \<open>error\<close> and lacks \<open>total_issues\<close>,
  \<open>summary\<close>, \<open>text_length\<close> and \<open>word_count\<close>. The result for any other text has the
  keys \<open>score\<close>, \<open>findings\<close>, \<open>total_issues\<close>, \<open>categories_affected\<close>, \<open>summary\<close>,
  \<open>text_length\<close> and \<open>word_count\<close>: it holds those four and lacks \<open>error\<close>.
\<close>

theorem result_shapes:
  "((\<forall>c\<in>set text. isspace c) \<longrightarrow>
      (\<exists>result. analyze BiasAnalyzer text = Inr result
         \<and> map fst result = [''error'', ''score'', ''findings'', ''categories_affected'']))
   \<and> ((\<exists>c\<in>set text. \<not> isspace c) \<longrightarrow>
      (\<exists>result. analyze BiasAnalyzer text = Inr result
         \<and> map fst result = [''score'', ''findings'', ''total_issues'', ''categories_affected'',
                              ''summary'', ''text_length'', ''word_count'']))"
proof (intro conjI impI)
  assume "\<forall>c\<in>set text. isspace c"
  from analyze_blank_eq[OF this, of BiasAnalyzer]
  show "\<exists>result. analyze BiasAnalyzer text = Inr result
         \<and> map fst result = [''error'', ''score'', ''findings'', ''categories_affected'']"
    by simp
next
  assume "\<exists>c\<in>set text. \<not> isspace c"
  from analyze_shipped[OF this]
  show "\<exists>result. analyze BiasAnalyzer text = Inr result
         \<and> map fst result = [''score'', ''findings'', ''total_issues'', ''categories_affected'',
                              ''summary'', ''text_length'', ''word_count'']"
    by (simp add: Let_def)
qed

theorem result_shapes_witness:
  "list_all isspace [CHR '' '', CHR 0x09]
   \<and> (\<exists>result. analyze BiasAnalyzer [CHR '' '', CHR 0x09] = Inr result
         \<and> map fst result = [''error'', ''score'', ''findings'', ''categories_affected''])
   \<and> list_ex (\<lambda>c. \<not> isspace c) ''ninja Ninja ninja''
   \<and> (\<exists>result. analyze BiasAnalyzer ''ninja Ninja ninja'' = Inr result
         \<and> map fst result = [''score'', ''findings'', ''total_issues'', ''categories_affected'',
                              ''summary'', ''text_length'', ''word_count''])"
proof -
  have b: "\<forall>c\<in>set [CHR '' '', CHR 0x09]. isspace c" by (simp add: isspace_def)
  have n: "\<exists>c\<in>set ''ninja Ninja ninja''. \<not> isspace c" by (simp add: isspace_def)
  have lb: "list_all isspace [CHR '' '', CHR 0x09]" by (simp add: isspace_def)
  have ln: "list_ex (\<lambda>c. \<not> isspace c) ''ninja Ninja ninja''" by (simp add: isspace_def)
  from result_shapes[of "[CHR '' '', CHR 0x09]"] b
  have 1: "\<exists>result. analyze BiasAnalyzer [CHR '' '', CHR 0x09] = Inr result
         \<and> map fst result = [''error'', ''score'', ''findings'', ''categories_affected'']"
    by blast
  from result_shapes[of "''ninja Ninja ninja''"] n
  have 2: "\<exists>result. analyze BiasAnalyzer ''ninja Ninja ninja'' = Inr result
         \<and> map fst result = [''score'', ''findings'', ''total_issues'', ''categories_affected'',
                              ''summary'', ''text_length'', ''word_count'']"
    by blast
  from lb 1 ln 2 show ?thesis by blast
qed

end
